theory Spec2Isabelle
  imports Main
begin

section \<open>The remote lock table\<close>

text \<open>
  The table \<^verbatim>\<open>file_locks\<close> of the migration
  \<^verbatim>\<open>20241210000002_create_file_locks.sql\<close> has the columns \<^verbatim>\<open>path\<close> (primary
  key), \<^verbatim>\<open>session_id\<close> and \<^verbatim>\<open>expires_at\<close>.  Since \<^verbatim>\<open>path\<close> is the primary key the
  table is a partial map from paths to the remaining columns.  Timestamps are
  milliseconds since the epoch, as \<^verbatim>\<open>Date.now()\<close> returns them.
\<close>

type_synonym timestamp = int

record lock_row =
  session_id :: string
  expires_at :: timestamp

type_synonym file_locks = "string \<rightharpoonup> lock_row"

text \<open>
  Every request to the Supabase client ends in one of three ways: the server
  performs it and answers (\<open>Completes\<close>; the answer can still be an error such as
  a primary-key violation), the client resolves with an \<^verbatim>\<open>{ error }\<close> object and
  the table is untouched (\<open>Fails\<close>), or the awaited promise rejects and the table
  is untouched (\<open>Throws\<close>).
\<close>

datatype outcome = Completes | Fails | Throws

datatype js_error = TransportError | TransactionError

text \<open>
  The client library is an external collaborator; the five requests the source
  issues are modelled on the schema above.  Each returns either a raised error or
  the pair of the \<^verbatim>\<open>error\<close> flag of the response and the new table.
\<close>

definition insert_lock ::
  "outcome \<Rightarrow> string \<Rightarrow> lock_row \<Rightarrow> file_locks \<Rightarrow> js_error + (bool \<times> file_locks)" where
  "insert_lock out p row t =
     (case out of
        Throws \<Rightarrow> Inl TransportError
      | Fails \<Rightarrow> Inr (True, t)
      | Completes \<Rightarrow> (if t p = None then Inr (False, t(p \<mapsto> row)) else Inr (True, t)))"

text \<open>\<^verbatim>\<open>.select(...).eq('path', p).single()\<close>: the \<^verbatim>\<open>data\<close> field of the response.\<close>

definition select_lock :: "outcome \<Rightarrow> string \<Rightarrow> file_locks \<Rightarrow> js_error + lock_row option" where
  "select_lock out p t =
     (case out of
        Throws \<Rightarrow> Inl TransportError
      | Fails \<Rightarrow> Inr None
      | Completes \<Rightarrow> Inr (t p))"

text \<open>\<^verbatim>\<open>.update({ expires_at }).eq('path', p).eq('session_id', sid)\<close>.\<close>

definition update_expiry ::
  "outcome \<Rightarrow> string \<Rightarrow> string \<Rightarrow> timestamp \<Rightarrow> file_locks \<Rightarrow> js_error + (bool \<times> file_locks)" where
  "update_expiry out p sid e t =
     (case out of
        Throws \<Rightarrow> Inl TransportError
      | Fails \<Rightarrow> Inr (True, t)
      | Completes \<Rightarrow>
          (case t p of
             None \<Rightarrow> Inr (False, t)
           | Some row \<Rightarrow>
               if session_id row = sid then Inr (False, t(p \<mapsto> row\<lparr>expires_at := e\<rparr>))
               else Inr (False, t)))"

text \<open>\<^verbatim>\<open>.delete().eq('path', p).eq('session_id', sid)\<close>.\<close>

definition delete_lock ::
  "outcome \<Rightarrow> string \<Rightarrow> string \<Rightarrow> file_locks \<Rightarrow> js_error + (bool \<times> file_locks)" where
  "delete_lock out p sid t =
     (case out of
        Throws \<Rightarrow> Inl TransportError
      | Fails \<Rightarrow> Inr (True, t)
      | Completes \<Rightarrow>
          (case t p of
             None \<Rightarrow> Inr (False, t)
           | Some row \<Rightarrow>
               if session_id row = sid then Inr (False, t(p := None))
               else Inr (False, t)))"

text \<open>\<^verbatim>\<open>.delete().lt('expires_at', now)\<close>.\<close>

definition delete_expired ::
  "outcome \<Rightarrow> timestamp \<Rightarrow> file_locks \<Rightarrow> js_error + (bool \<times> file_locks)" where
  "delete_expired out now t =
     (case out of
        Throws \<Rightarrow> Inl TransportError
      | Fails \<Rightarrow> Inr (True, t)
      | Completes \<Rightarrow>
          Inr (False,
            (\<lambda>p. case t p of
                   None \<Rightarrow> None
                 | Some row \<Rightarrow> if expires_at row < now then None else Some row)))"

section \<open>The lock coordinator (\<^verbatim>\<open>remoteLocks.ts\<close>)\<close>

text \<open>
  The module-level variables: \<^verbatim>\<open>supabase\<close> (only whether the client exists
  matters), \<^verbatim>\<open>sessionId\<close>, the set \<^verbatim>\<open>activeLocks\<close> (a JavaScript \<^verbatim>\<open>Set\<close>
  iterates in insertion order, hence a list without repetitions) and
  \<^verbatim>\<open>heartbeatInterval\<close> (only whether the timer is registered matters).
\<close>

record lock_client =
  supabase :: bool
  sessionId :: "string option"
  activeLocks :: "string list"
  heartbeatInterval :: bool

text \<open>
  What one call reads from its surroundings: the two environment variables, the
  text that \<^verbatim>\<open>Date.now()\<close> and \<^verbatim>\<open>Math.random()\<close> contribute to a new session
  id, the clock at each place where the source reads it, how each request ends,
  and whether the dynamic \<^verbatim>\<open>import('./remoteLocks')\<close> resolves.
\<close>

record io =
  supabaseUrl :: string
  supabaseKey :: string
  session_stamp :: string
  sweep_now :: timestamp
  sweep_outcome :: outcome
  insert_now :: timestamp
  insert_outcome :: outcome
  select_outcome :: outcome
  refresh_now :: timestamp
  update_outcome :: outcome
  delete_outcome :: outcome
  import_resolves :: bool

definition set_add :: "string \<Rightarrow> string list \<Rightarrow> string list" where
  "set_add x xs = (if x \<in> set xs then xs else xs @ [x])"

definition set_delete :: "string \<Rightarrow> string list \<Rightarrow> string list" where
  "set_delete x xs = removeAll x xs"

definition startHeartbeat :: "lock_client \<Rightarrow> lock_client" where
  "startHeartbeat c = (if heartbeatInterval c then c else c\<lparr>heartbeatInterval := True\<rparr>)"

definition initializeRemoteLocks :: "io \<Rightarrow> lock_client \<Rightarrow> lock_client" where
  "initializeRemoteLocks e c =
     (if supabase c then c
      else if supabaseUrl e = [] \<or> supabaseKey e = [] then c
      else startHeartbeat
             (c\<lparr>supabase := True, sessionId := Some (''session-'' @ session_stamp e)\<rparr>))"

text \<open>The test \<^verbatim>\<open>!supabase || !sessionId\<close>; an empty string is falsy.\<close>

definition unavailable :: "lock_client \<Rightarrow> bool" where
  "unavailable c =
     (\<not> supabase c \<or> (case sessionId c of None \<Rightarrow> True | Some s \<Rightarrow> s = []))"

text \<open>The value of \<^verbatim>\<open>sessionId\<close> where the source has passed that test.\<close>

definition self :: "lock_client \<Rightarrow> string" where
  "self c = (case sessionId c of None \<Rightarrow> [] | Some s \<Rightarrow> s)"

text \<open>
  \<^verbatim>\<open>cleanupExpiredLocks\<close> catches what its request raises and only warns about an
  error response, so it returns a table in every case.
\<close>

definition cleanupExpiredLocks :: "io \<Rightarrow> lock_client \<Rightarrow> file_locks \<Rightarrow> file_locks" where
  "cleanupExpiredLocks e c t =
     (if \<not> supabase c then t
      else case delete_expired (sweep_outcome e) (sweep_now e) t of
             Inl err \<Rightarrow> t
           | Inr (error, t') \<Rightarrow> t')"

text \<open>
  The message \<^verbatim>\<open>acquireRemoteLock\<close> writes to the console just before it
  returns; each return statement writes a different one.
\<close>

datatype acquire_log =
  NotAvailable | RefreshedExisting | LockedByAnother | AcquiredLock | ErrorAcquiring

record acquired =
  granted :: bool
  message :: acquire_log
  client :: lock_client
  locks :: file_locks

text \<open>
  The body of the \<^verbatim>\<open>try\<close> block of \<^verbatim>\<open>acquireRemoteLock\<close>.  A raised error carries
  the table as the requests before it left it.
\<close>

definition acquire_try ::
  "io \<Rightarrow> lock_client \<Rightarrow> file_locks \<Rightarrow> string \<Rightarrow> (js_error \<times> file_locks) + acquired" where
  "acquire_try e c t lockName =
     (let t1 = cleanupExpiredLocks e c t in
      case insert_lock (insert_outcome e) lockName
             \<lparr>session_id = self c, expires_at = insert_now e + 30000\<rparr> t1 of
        Inl err \<Rightarrow> Inl (err, t1)
      | Inr (error, t2) \<Rightarrow>
          if error then
            (case select_lock (select_outcome e) lockName t2 of
               Inl err \<Rightarrow> Inl (err, t2)
             | Inr existingLock \<Rightarrow>
                 if (case existingLock of None \<Rightarrow> False | Some row \<Rightarrow> session_id row = self c)
                 then
                   (case update_expiry (update_outcome e) lockName (self c)
                           (refresh_now e + 30000) t2 of
                      Inl err \<Rightarrow> Inl (err, t2)
                    | Inr (error', t3) \<Rightarrow>
                        Inr \<lparr>granted = True, message = RefreshedExisting, client = c, locks = t3\<rparr>)
                 else
                   Inr \<lparr>granted = False, message = LockedByAnother, client = c, locks = t2\<rparr>)
          else
            Inr \<lparr>granted = True, message = AcquiredLock,
                 client = c\<lparr>activeLocks := set_add lockName (activeLocks c)\<rparr>, locks = t2\<rparr>)"

definition acquireRemoteLock :: "io \<Rightarrow> lock_client \<Rightarrow> file_locks \<Rightarrow> string \<Rightarrow> acquired" where
  "acquireRemoteLock e c t lockName =
     (let c1 = initializeRemoteLocks e c in
      if unavailable c1 then
        \<lparr>granted = True, message = NotAvailable, client = c1, locks = t\<rparr>
      else
        case acquire_try e c1 t lockName of
          Inl (err, t') \<Rightarrow> \<lparr>granted = True, message = ErrorAcquiring, client = c1, locks = t'\<rparr>
        | Inr r \<Rightarrow> r)"

text \<open>
  \<^verbatim>\<open>releaseRemoteLock\<close>: the name leaves \<^verbatim>\<open>activeLocks\<close> only when the response
  carries no error.
\<close>

definition releaseRemoteLock ::
  "io \<Rightarrow> lock_client \<Rightarrow> file_locks \<Rightarrow> string \<Rightarrow> lock_client \<times> file_locks" where
  "releaseRemoteLock e c t lockName =
     (if unavailable c then (c, t)
      else case delete_lock (delete_outcome e) lockName (self c) t of
             Inl err \<Rightarrow> (c, t)
           | Inr (error, t') \<Rightarrow>
               if error then (c, t')
               else (c\<lparr>activeLocks := set_delete lockName (activeLocks c)\<rparr>, t'))"

text \<open>
  \<^verbatim>\<open>isFileLockedByOther\<close>: \<open>Some sid\<close> stands for
  \<^verbatim>\<open>{ locked: true, sessionId: sid }\<close> and \<open>None\<close> for \<^verbatim>\<open>{ locked: false }\<close>.
  The function catches every error of its requests, so its result is never a
  raised error; the sum type keeps the \<^verbatim>\<open>try\<close> of its caller visible.
\<close>

definition isFileLockedByOther ::
  "io \<Rightarrow> lock_client \<Rightarrow> file_locks \<Rightarrow> string \<Rightarrow> js_error + (string option \<times> file_locks)" where
  "isFileLockedByOther e c t lockName =
     (if unavailable c then Inr (None, t)
      else
        let t1 = cleanupExpiredLocks e c t in
        case select_lock (select_outcome e) lockName t1 of
          Inl err \<Rightarrow> Inr (None, t1)
        | Inr lock \<Rightarrow>
            (case lock of
               None \<Rightarrow> Inr (None, t1)
             | Some row \<Rightarrow>
                 if session_id row = self c then Inr (None, t1)
                 else Inr (Some (session_id row), t1)))"

text \<open>
  \<^verbatim>\<open>refreshLockExpiration\<close> does not look at the response of its request and
  catches what the request raises.
\<close>

definition refreshLockExpiration ::
  "io \<Rightarrow> lock_client \<Rightarrow> file_locks \<Rightarrow> string \<Rightarrow> js_error + file_locks" where
  "refreshLockExpiration e c t lockName =
     (if unavailable c then Inr t
      else case update_expiry (update_outcome e) lockName (self c) (refresh_now e + 30000) t of
             Inl err \<Rightarrow> Inr t
           | Inr (error, t') \<Rightarrow> Inr t')"

text \<open>
  One callback of the \<^verbatim>\<open>forEach\<close> in the heartbeat timer.  The environment gives
  each name the surroundings of its refresh and of its re-acquire.
  \<^verbatim>\<open>acquireRemoteLock\<close> raises nothing, so the inner \<^verbatim>\<open>catch\<close> has no branch here.
\<close>

definition heartbeat_lock ::
  "(string \<Rightarrow> io \<times> io) \<Rightarrow> string \<Rightarrow> lock_client \<times> file_locks \<Rightarrow> lock_client \<times> file_locks" where
  "heartbeat_lock env lockName s =
     (case s of (c, t) \<Rightarrow>
        (case refreshLockExpiration (fst (env lockName)) c t lockName of
           Inr t' \<Rightarrow> (c, t')
         | Inl err \<Rightarrow>
             (let r = acquireRemoteLock (snd (env lockName)) c t lockName in
              if granted r then (client r, locks r)
              else ((client r)\<lparr>activeLocks := set_delete lockName (activeLocks (client r))\<rparr>,
                    locks r))))"

text \<open>
  One tick of the timer.  The callbacks are asynchronous; they are run here one
  after the other in the order of the set.
\<close>

definition heartbeat ::
  "(string \<Rightarrow> io \<times> io) \<Rightarrow> lock_client \<Rightarrow> file_locks \<Rightarrow> lock_client \<times> file_locks" where
  "heartbeat env c t =
     (if length (activeLocks c) > 0 then fold (heartbeat_lock env) (activeLocks c) (c, t)
      else (c, t))"

section \<open>The editing session registry (\<^verbatim>\<open>editingSessions.ts\<close>)\<close>

text \<open>\<^verbatim>\<open>activeSessions\<close>, a \<^verbatim>\<open>Map\<close> from file path to session id.\<close>

type_synonym sessions = "string \<rightharpoonup> string"

text \<open>
  \<^verbatim>\<open>validateEditingSession\<close>.  The \<^verbatim>\<open>try\<close> block first awaits the dynamic import
  of the lock module and then \<^verbatim>\<open>isFileLockedByOther\<close>; an error raised by
  either reaches the \<^verbatim>\<open>catch\<close>, which returns \<^verbatim>\<open>false\<close> and leaves the registry
  alone.
\<close>

definition validateEditingSession ::
  "io \<Rightarrow> sessions \<Rightarrow> lock_client \<Rightarrow> file_locks \<Rightarrow> string \<Rightarrow> bool \<times> sessions \<times> file_locks" where
  "validateEditingSession e activeSessions c t filePath =
     (if \<not> import_resolves e then (False, activeSessions, t)
      else case isFileLockedByOther e c t (''file-editing:'' @ filePath) of
             Inl err \<Rightarrow> (False, activeSessions, t)
           | Inr (lockResult, t') \<Rightarrow>
               (case lockResult of
                  Some other \<Rightarrow> (False, activeSessions(filePath := None), t')
                | None \<Rightarrow> (True, activeSessions, t')))"

section \<open>The file sync engine (\<^verbatim>\<open>SupabaseFileSync\<close>)\<close>

text \<open>
  A row of the remote table \<^verbatim>\<open>synced_files\<close>, with the fields of the interface
  \<^verbatim>\<open>SyncedFile\<close> that the pull path reads or selects on.  The view state is opaque
  JSON and is kept as text.
\<close>

record SyncedFile =
  path :: string
  contents :: string
  sha256 :: string
  view_state :: string
  updated_at :: timestamp

text \<open>
  Modelled from the spec: the class \<^verbatim>\<open>FileStorageDb\<close> and the type
  \<^verbatim>\<open>FileMetadata\<close> are imported from the directory index, which is not among the
  sources.  The spec gives the local record as a metadata record with path,
  digest and view state and a contents record keyed by the same path; the source
  reads \<^verbatim>\<open>localMetadata.uuid\<close> as the key of a metadata row, adds a metadata row
  without a key (the store generates one) and puts contents by path.
\<close>

record FileMetadata =
  uuid :: string
  local_path :: string
  local_sha256 :: string
  viewState :: string

record FileStorageDb =
  metadata :: "FileMetadata list"
  db_contents :: "string \<rightharpoonup> string"

text \<open>
  What a merge reads from its surroundings: the key the store generates for a
  new metadata row, and whether the transaction commits.
\<close>

record merge_io =
  new_uuid :: string
  commits :: bool

text \<open>The callback passed to \<^verbatim>\<open>db.transaction\<close> in \<^verbatim>\<open>mergeFile\<close>.\<close>

definition merge_transaction :: "string \<Rightarrow> SyncedFile \<Rightarrow> FileStorageDb \<Rightarrow> FileStorageDb" where
  "merge_transaction fresh remoteFile db =
     (case find (\<lambda>m. local_path m = path remoteFile) (metadata db) of
        None \<Rightarrow>
          db\<lparr>metadata := metadata db @
                 [\<lparr>uuid = fresh, local_path = path remoteFile,
                   local_sha256 = sha256 remoteFile, viewState = view_state remoteFile\<rparr>],
             db_contents := (db_contents db)(path remoteFile \<mapsto> contents remoteFile)\<rparr>
      | Some localMetadata \<Rightarrow>
          if local_sha256 localMetadata \<noteq> sha256 remoteFile then
            db\<lparr>metadata :=
                 map (\<lambda>m. if uuid m = uuid localMetadata
                           then m\<lparr>local_sha256 := sha256 remoteFile,
                                  viewState := view_state remoteFile\<rparr>
                           else m) (metadata db),
               db_contents := (db_contents db)(path remoteFile \<mapsto> contents remoteFile)\<rparr>
          else db)"

text \<open>A transaction that does not commit raises and leaves the store as it was.\<close>

definition transaction ::
  "bool \<Rightarrow> (FileStorageDb \<Rightarrow> FileStorageDb) \<Rightarrow> FileStorageDb \<Rightarrow> js_error + FileStorageDb" where
  "transaction ok body db = (if ok then Inr (body db) else Inl TransactionError)"

text \<open>
  \<^verbatim>\<open>mergeFile\<close> catches the error of its transaction and logs it, so its own
  result is never a raised error.
\<close>

definition mergeFile :: "merge_io \<Rightarrow> SyncedFile \<Rightarrow> FileStorageDb \<Rightarrow> js_error + FileStorageDb" where
  "mergeFile m remoteFile db =
     (case transaction (commits m) (merge_transaction (new_uuid m) remoteFile) db of
        Inl err \<Rightarrow> Inr db
      | Inr db' \<Rightarrow> Inr db')"

text \<open>The fields of the engine that a pull reads or writes.\<close>

record sync_state =
  isActive :: bool
  lastSyncTime :: timestamp

text \<open>
  The query of the pull: the rows with \<^verbatim>\<open>updated_at >= lastSyncTime\<close> in
  ascending order of \<^verbatim>\<open>updated_at\<close>.  The result is the \<^verbatim>\<open>error\<close> flag with the
  \<^verbatim>\<open>data\<close> field.
\<close>

definition select_synced ::
  "outcome \<Rightarrow> timestamp \<Rightarrow> SyncedFile list \<Rightarrow> js_error + (bool \<times> SyncedFile list option)" where
  "select_synced out since rows =
     (case out of
        Throws \<Rightarrow> Inl TransportError
      | Fails \<Rightarrow> Inr (True, None)
      | Completes \<Rightarrow> Inr (False, Some (sort_key updated_at (filter (\<lambda>f. since \<le> updated_at f) rows))))"

record pull_io =
  query_outcome :: outcome
  merge_env :: "string \<Rightarrow> merge_io"
  pull_done :: timestamp

text \<open>The loop over the returned rows; the result stops at the first raised error.\<close>

fun merge_each ::
  "(string \<Rightarrow> merge_io) \<Rightarrow> SyncedFile list \<Rightarrow> FileStorageDb \<Rightarrow> js_error + FileStorageDb" where
  "merge_each env [] db = Inr db"
| "merge_each env (remoteFile # remoteFiles) db =
     (case mergeFile (env (path remoteFile)) remoteFile db of
        Inl err \<Rightarrow> Inl err
      | Inr db' \<Rightarrow> merge_each env remoteFiles db')"

definition downloadAndMergeFiles ::
  "pull_io \<Rightarrow> SyncedFile list \<Rightarrow> sync_state \<times> FileStorageDb \<Rightarrow> sync_state \<times> FileStorageDb" where
  "downloadAndMergeFiles e remote s =
     (case s of (this, db) \<Rightarrow>
        (case select_synced (query_outcome e) (lastSyncTime this) remote of
           Inl err \<Rightarrow> (this, db)
         | Inr (error, data) \<Rightarrow>
             if error then (this, db)
             else
               (case data of
                  None \<Rightarrow> (this, db)
                | Some remoteFiles \<Rightarrow>
                    if length remoteFiles = 0 then (this, db)
                    else
                      (case merge_each (merge_env e) remoteFiles db of
                         Inl err \<Rightarrow> (this, db)
                       | Inr db' \<Rightarrow> (this\<lparr>lastSyncTime := pull_done e\<rparr>, db')))))"

section \<open>Concrete scenarios\<close>

text \<open>
  Two initialised clients, a lock name, rows owned by each of them, and the
  surroundings of a call in which the clock reads 1000 and every request
  completes.
\<close>

definition lock_a :: string where "lock_a = ''file-editing:/a.py''"

definition io_ok :: io where
  "io_ok = \<lparr>supabaseUrl = ''https://db.example'', supabaseKey = ''anon'', session_stamp = ''7-x'',
     sweep_now = 1000, sweep_outcome = Completes, insert_now = 1000, insert_outcome = Completes,
     select_outcome = Completes, refresh_now = 1000, update_outcome = Completes,
     delete_outcome = Completes, import_resolves = True\<rparr>"

definition client_A :: lock_client where
  "client_A = \<lparr>supabase = True, sessionId = Some ''session-A'', activeLocks = [lock_a],
     heartbeatInterval = True\<rparr>"

definition client_B :: lock_client where
  "client_B = \<lparr>supabase = True, sessionId = Some ''session-B'', activeLocks = [],
     heartbeatInterval = True\<rparr>"

definition row_A :: lock_row where "row_A = \<lparr>session_id = ''session-A'', expires_at = 20000\<rparr>"
definition row_B :: lock_row where "row_B = \<lparr>session_id = ''session-B'', expires_at = 20000\<rparr>"

definition held_by_A :: file_locks where "held_by_A = [lock_a \<mapsto> row_A]"
definition held_by_B :: file_locks where "held_by_B = [lock_a \<mapsto> row_B]"

definition io_insert_throws :: io where "io_insert_throws = io_ok\<lparr>insert_outcome := Throws\<rparr>"
definition io_select_fails :: io where "io_select_fails = io_ok\<lparr>select_outcome := Fails\<rparr>"
definition io_select_throws :: io where "io_select_throws = io_ok\<lparr>select_outcome := Throws\<rparr>"
definition io_update_throws :: io where "io_update_throws = io_ok\<lparr>update_outcome := Throws\<rparr>"
definition io_unconfigured :: io where "io_unconfigured = io_ok\<lparr>supabaseUrl := []\<rparr>"

definition client_new :: lock_client where
  "client_new = \<lparr>supabase = False, sessionId = None, activeLocks = [], heartbeatInterval = False\<rparr>"

definition beat_env :: "string \<Rightarrow> io \<times> io" where "beat_env lockName = (io_ok, io_ok)"

definition sessions_a :: sessions where "sessions_a = [''/a.py'' \<mapsto> ''edit-1'']"

definition no_locks :: file_locks where "no_locks = Map.empty"

definition io_import_rejects :: io where "io_import_rejects = io_ok\<lparr>import_resolves := False\<rparr>"

definition remote_x :: SyncedFile where
  "remote_x = \<lparr>path = ''x.py'', contents = ''print(2)'', sha256 = ''D2'', view_state = ''null'',
     updated_at = 100\<rparr>"

definition local_x :: FileMetadata where
  "local_x = \<lparr>uuid = ''u1'', local_path = ''x.py'', local_sha256 = ''D1'', viewState = ''{}''\<rparr>"

definition db_x :: FileStorageDb where
  "db_x = \<lparr>metadata = [local_x], db_contents = [''x.py'' \<mapsto> ''print(1)'']\<rparr>"

definition merge_ok :: merge_io where "merge_ok = \<lparr>new_uuid = ''u2'', commits = True\<rparr>"

definition merge_aborts :: merge_io where "merge_aborts = \<lparr>new_uuid = ''u2'', commits = False\<rparr>"

definition all_abort :: "string \<Rightarrow> merge_io" where "all_abort p = merge_aborts"

definition pull_abort :: pull_io where
  "pull_abort = \<lparr>query_outcome = Completes, merge_env = all_abort, pull_done = 5000\<rparr>"

definition sync0 :: sync_state where "sync0 = \<lparr>isActive = True, lastSyncTime = 0\<rparr>"

section \<open>Properties of the lock coordinator\<close>

lemma unavailable_ready:
  "supabase c \<Longrightarrow> sessionId c = Some s \<Longrightarrow> s \<noteq> [] \<Longrightarrow> \<not> unavailable c"
  by (simp add: unavailable_def)

lemma self_ready: "sessionId c = Some s \<Longrightarrow> self c = s"
  by (simp add: self_def)

lemma initialize_ready: "supabase c \<Longrightarrow> initializeRemoteLocks e c = c"
  by (simp add: initializeRemoteLocks_def)

lemma initialize_activeLocks: "activeLocks (initializeRemoteLocks e c) = activeLocks c"
  by (simp add: initializeRemoteLocks_def startHeartbeat_def)

lemma cleanup_keeps_live:
  "t n = Some row \<Longrightarrow> \<not> expires_at row < sweep_now e \<Longrightarrow> cleanupExpiredLocks e c t n = Some row"
  by (cases "sweep_outcome e") (simp_all add: cleanupExpiredLocks_def delete_expired_def)

lemma cleanup_keeps_free: "t n = None \<Longrightarrow> cleanupExpiredLocks e c t n = None"
  by (cases "sweep_outcome e") (simp_all add: cleanupExpiredLocks_def delete_expired_def)

lemma cleanup_cases:
  "cleanupExpiredLocks e c t n = t n \<or>
   (cleanupExpiredLocks e c t n = None \<and> sweep_outcome e = Completes \<and>
      (\<exists>row. t n = Some row \<and> expires_at row < sweep_now e))"
  by (cases "sweep_outcome e")
     (auto simp: cleanupExpiredLocks_def delete_expired_def split: option.splits)

lemma acquire_try_locked:
  assumes "cleanupExpiredLocks e c t n = Some row" "session_id row \<noteq> self c"
    and "insert_outcome e \<noteq> Throws" "select_outcome e \<noteq> Throws"
  shows "acquire_try e c t n =
           Inr \<lparr>granted = False, message = LockedByAnother, client = c,
                locks = cleanupExpiredLocks e c t\<rparr>"
  using assms
  by (cases "insert_outcome e"; cases "select_outcome e")
     (simp_all add: acquire_try_def Let_def insert_lock_def select_lock_def)

lemma acquire_try_free:
  assumes "cleanupExpiredLocks e c t n = None" "insert_outcome e = Completes"
  shows "acquire_try e c t n =
           Inr \<lparr>granted = True, message = AcquiredLock,
                client = c\<lparr>activeLocks := set_add n (activeLocks c)\<rparr>,
                locks = (cleanupExpiredLocks e c t)
                  (n \<mapsto> \<lparr>session_id = self c, expires_at = insert_now e + 30000\<rparr>)\<rparr>"
  using assms by (simp add: acquire_try_def Let_def insert_lock_def)

lemma acquire_try_own:
  assumes "cleanupExpiredLocks e c t n = Some row" "session_id row = self c"
    and "insert_outcome e \<noteq> Throws" "select_outcome e = Completes" "update_outcome e = Completes"
  shows "acquire_try e c t n =
           Inr \<lparr>granted = True, message = RefreshedExisting, client = c,
                locks = (cleanupExpiredLocks e c t)
                  (n \<mapsto> row\<lparr>expires_at := refresh_now e + 30000\<rparr>)\<rparr>"
  using assms
  by (cases "insert_outcome e")
     (simp_all add: acquire_try_def Let_def insert_lock_def select_lock_def update_expiry_def)

lemma acquire_ready:
  "supabase c \<Longrightarrow> sessionId c = Some s \<Longrightarrow> s \<noteq> [] \<Longrightarrow>
     acquireRemoteLock e c t n =
       (case acquire_try e c t n of
          Inl (err, t') \<Rightarrow> \<lparr>granted = True, message = ErrorAcquiring, client = c, locks = t'\<rparr>
        | Inr r \<Rightarrow> r)"
  by (simp add: acquireRemoteLock_def initialize_ready unavailable_ready)

lemma release_own:
  assumes "supabase c" "sessionId c = Some s" "s \<noteq> []" "t n = Some row" "session_id row = s"
    and "delete_outcome e = Completes"
  shows "snd (releaseRemoteLock e c t n) n = None"
  using assms by (simp add: releaseRemoteLock_def unavailable_ready self_ready delete_lock_def)

lemma acquire_granted_if_free:
  assumes "supabase c" "sessionId c = Some s" "s \<noteq> []" "t n = None" "insert_outcome e \<noteq> Fails"
  shows "granted (acquireRemoteLock e c t n)"
proof (cases "insert_outcome e")
  case Completes
  with assms show ?thesis
    by (simp add: acquire_ready acquire_try_free cleanup_keeps_free)
next
  case Fails
  with assms show ?thesis by simp
next
  case Throws
  with assms show ?thesis
    by (simp add: acquire_ready acquire_try_def Let_def insert_lock_def)
qed

text \<open>
  C1.  Let client B be initialised, and let the table hold for the name a row of
  another holder A that has not expired when B's attempt reads the clock.  If
  none of B's requests raises, \<^verbatim>\<open>acquireRemoteLock\<close> returns \<^verbatim>\<open>false\<close> to B.  Once A's
  \<^verbatim>\<open>releaseRemoteLock\<close> has completed, B's next \<^verbatim>\<open>acquireRemoteLock\<close> of the name
  returns \<^verbatim>\<open>true\<close>, provided its insert is answered by the server.
\<close>

theorem acquire_excluded_then_granted:
  assumes B: "supabase cB" "sessionId cB = Some b" "b \<noteq> []"
    and A: "supabase cA" "sessionId cA = Some a" "a \<noteq> []"
    and different: "a \<noteq> b"
    and held: "t n = Some row" "session_id row = a"
    and live: "sweep_now e1 < expires_at row"
    and no_throw: "insert_outcome e1 \<noteq> Throws" "select_outcome e1 \<noteq> Throws"
    and released: "delete_outcome eR = Completes"
    and answered: "insert_outcome e2 \<noteq> Fails"
  shows "\<not> granted (acquireRemoteLock e1 cB t n) \<and>
         granted (acquireRemoteLock e2 (client (acquireRemoteLock e1 cB t n))
                    (snd (releaseRemoteLock eR cA (locks (acquireRemoteLock e1 cB t n)) n)) n)"
proof -
  let ?t1 = "cleanupExpiredLocks e1 cB t"
  have kept: "?t1 n = Some row"
    using held live by (simp add: cleanup_keeps_live)
  have first: "acquireRemoteLock e1 cB t n =
      \<lparr>granted = False, message = LockedByAnother, client = cB, locks = ?t1\<rparr>"
    using B kept held different no_throw
    by (simp add: acquire_ready acquire_try_locked self_ready)
  have gone: "snd (releaseRemoteLock eR cA ?t1 n) n = None"
    using A kept held(2) released by (rule release_own)
  have second: "granted (acquireRemoteLock e2 cB (snd (releaseRemoteLock eR cA ?t1 n)) n)"
    using B gone answered by (rule acquire_granted_if_free)
  from first second show ?thesis by simp
qed

theorem acquire_excluded_then_granted_witness:
  "supabase client_B \<and> sessionId client_B = Some ''session-B'' \<and>
   supabase client_A \<and> sessionId client_A = Some ''session-A'' \<and>
   held_by_A lock_a = Some row_A \<and> session_id row_A = ''session-A'' \<and>
   sweep_now io_ok < expires_at row_A \<and>
   \<not> granted (acquireRemoteLock io_ok client_B held_by_A lock_a) \<and>
   granted (acquireRemoteLock io_ok (client (acquireRemoteLock io_ok client_B held_by_A lock_a))
      (snd (releaseRemoteLock io_ok client_A
              (locks (acquireRemoteLock io_ok client_B held_by_A lock_a)) lock_a)) lock_a)"
proof -
  have B: "supabase client_B" "sessionId client_B = Some ''session-B''" "''session-B'' \<noteq> []"
    by (simp_all add: client_B_def)
  have A: "supabase client_A" "sessionId client_A = Some ''session-A''" "''session-A'' \<noteq> []"
    by (simp_all add: client_A_def)
  have different: "''session-A'' \<noteq> ''session-B''" by simp
  have held: "held_by_A lock_a = Some row_A" "session_id row_A = ''session-A''"
    by (simp_all add: held_by_A_def row_A_def)
  have live: "sweep_now io_ok < expires_at row_A" by (simp add: io_ok_def row_A_def)
  have outcomes: "insert_outcome io_ok \<noteq> Throws" "select_outcome io_ok \<noteq> Throws"
    "delete_outcome io_ok = Completes" "insert_outcome io_ok \<noteq> Fails"
    by (simp_all add: io_ok_def)
  from acquire_excluded_then_granted [where t = held_by_A and n = lock_a, OF B A different held live outcomes] B A held live
  show ?thesis by simp
qed

lemma acquire_try_raises:
  "(\<exists>x. acquire_try e c t n = Inl x) \<longleftrightarrow>
     insert_outcome e = Throws \<or>
     (select_outcome e = Throws \<and>
        (insert_outcome e = Fails \<or> cleanupExpiredLocks e c t n \<noteq> None)) \<or>
     (update_outcome e = Throws \<and> select_outcome e = Completes \<and>
        (\<exists>row. cleanupExpiredLocks e c t n = Some row \<and> session_id row = self c))"
  by (cases "insert_outcome e"; cases "select_outcome e"; cases "update_outcome e")
     (auto simp: acquire_try_def Let_def insert_lock_def select_lock_def update_expiry_def
        split: option.splits)

text \<open>
  C2.  For every lock name and an available client: when a request of the
  attempt raises, \<^verbatim>\<open>acquireRemoteLock\<close> returns \<^verbatim>\<open>true\<close> through its \<^verbatim>\<open>catch\<close>; it
  neither raises nor returns \<^verbatim>\<open>false\<close>.  The requests of the attempt are the
  insert; the read-back, made when the insert was answered with an error (an
  error response, or a row of the name present after the sweep); and the update,
  made when the read-back completed and showed the caller's own row.  An error
  raised by the sweep is caught inside \<^verbatim>\<open>cleanupExpiredLocks\<close> and is none of them.
\<close>

theorem acquire_fail_open:
  assumes available: "\<not> unavailable (initializeRemoteLocks e c)"
    and thrown:
      "insert_outcome e = Throws \<or>
       (select_outcome e = Throws \<and>
          (insert_outcome e = Fails \<or>
           cleanupExpiredLocks e (initializeRemoteLocks e c) t lockName \<noteq> None)) \<or>
       (update_outcome e = Throws \<and> select_outcome e = Completes \<and>
          (\<exists>row. cleanupExpiredLocks e (initializeRemoteLocks e c) t lockName = Some row \<and>
                 session_id row = self (initializeRemoteLocks e c)))"
  shows "granted (acquireRemoteLock e c t lockName) \<and>
         message (acquireRemoteLock e c t lockName) = ErrorAcquiring"
proof -
  from thrown obtain x where "acquire_try e (initializeRemoteLocks e c) t lockName = Inl x"
    using acquire_try_raises [of e "initializeRemoteLocks e c" t lockName] by blast
  with available show ?thesis
    by (simp add: acquireRemoteLock_def Let_def split: prod.splits)
qed

text \<open>
  The three requests in turn: B's insert raises while A holds the lock, B's
  read-back raises while A holds the lock, and A's update raises on its own row.
\<close>

theorem acquire_fail_open_witness:
  "\<not> unavailable (initializeRemoteLocks io_insert_throws client_B) \<and>
   insert_outcome io_insert_throws = Throws \<and>
   held_by_A lock_a = Some row_A \<and> session_id row_A \<noteq> self client_B \<and>
   granted (acquireRemoteLock io_insert_throws client_B held_by_A lock_a) \<and>
   message (acquireRemoteLock io_insert_throws client_B held_by_A lock_a) = ErrorAcquiring \<and>
   \<not> unavailable (initializeRemoteLocks io_select_throws client_B) \<and>
   select_outcome io_select_throws = Throws \<and>
   cleanupExpiredLocks io_select_throws (initializeRemoteLocks io_select_throws client_B)
     held_by_A lock_a \<noteq> None \<and>
   granted (acquireRemoteLock io_select_throws client_B held_by_A lock_a) \<and>
   message (acquireRemoteLock io_select_throws client_B held_by_A lock_a) = ErrorAcquiring \<and>
   \<not> unavailable (initializeRemoteLocks io_update_throws client_A) \<and>
   update_outcome io_update_throws = Throws \<and> select_outcome io_update_throws = Completes \<and>
   cleanupExpiredLocks io_update_throws (initializeRemoteLocks io_update_throws client_A)
     held_by_A lock_a = Some row_A \<and>
   session_id row_A = self (initializeRemoteLocks io_update_throws client_A) \<and>
   granted (acquireRemoteLock io_update_throws client_A held_by_A lock_a) \<and>
   message (acquireRemoteLock io_update_throws client_A held_by_A lock_a) = ErrorAcquiring"
proof -
  have init: "initializeRemoteLocks io_insert_throws client_B = client_B"
    "initializeRemoteLocks io_select_throws client_B = client_B"
    "initializeRemoteLocks io_update_throws client_A = client_A"
    by (simp_all add: initializeRemoteLocks_def client_B_def client_A_def)
  have ready: "\<not> unavailable client_B" "\<not> unavailable client_A"
    by (simp_all add: unavailable_def client_B_def client_A_def)
  have held: "held_by_A lock_a = Some row_A"
    by (simp add: held_by_A_def)
  have owner: "session_id row_A \<noteq> self client_B" "session_id row_A = self client_A"
    by (simp_all add: row_A_def self_def client_B_def client_A_def)
  have outcomes: "insert_outcome io_insert_throws = Throws"
    "select_outcome io_select_throws = Throws"
    "update_outcome io_update_throws = Throws" "select_outcome io_update_throws = Completes"
    by (simp_all add: io_insert_throws_def io_select_throws_def io_update_throws_def io_ok_def)
  have kept1: "cleanupExpiredLocks io_select_throws client_B held_by_A lock_a = Some row_A"
    using held by (rule cleanup_keeps_live)
      (simp add: row_A_def io_select_throws_def io_ok_def)
  have kept2: "cleanupExpiredLocks io_update_throws client_A held_by_A lock_a = Some row_A"
    using held by (rule cleanup_keeps_live)
      (simp add: row_A_def io_update_throws_def io_ok_def)
  from acquire_fail_open [where e = io_insert_throws and c = client_B and t = held_by_A
      and lockName = lock_a]
    acquire_fail_open [where e = io_select_throws and c = client_B and t = held_by_A
      and lockName = lock_a]
    acquire_fail_open [where e = io_update_throws and c = client_A and t = held_by_A
      and lockName = lock_a]
    init ready held owner outcomes kept1 kept2
  show ?thesis by simp
qed

text \<open>
  C4.  For every lock name \<open>n\<close>: \<^verbatim>\<open>releaseRemoteLock\<close> leaves a row of \<open>n\<close> that
  belongs to another holder as it is; the only entry of the table it can change
  is the caller's own row of \<open>n\<close>, which it deletes; and when the delete request
  completes, \<open>n\<close> is no longer in \<^verbatim>\<open>activeLocks\<close>.
\<close>

theorem release_only_own:
  "(t n = Some row \<and> sessionId c \<noteq> Some (session_id row) \<longrightarrow>
      snd (releaseRemoteLock e c t n) n = Some row) \<and>
   (\<forall>m. snd (releaseRemoteLock e c t n) m \<noteq> t m \<longrightarrow>
      m = n \<and> snd (releaseRemoteLock e c t n) m = None \<and>
      (\<exists>r. t n = Some r \<and> sessionId c = Some (session_id r))) \<and>
   (\<not> unavailable c \<and> delete_outcome e = Completes \<longrightarrow>
      n \<notin> set (activeLocks (fst (releaseRemoteLock e c t n))))"
proof -
  have other: "t n = Some row \<and> sessionId c \<noteq> Some (session_id row) \<longrightarrow>
      snd (releaseRemoteLock e c t n) n = Some row"
    by (auto simp: releaseRemoteLock_def delete_lock_def unavailable_def self_def
        split: outcome.splits option.splits)
  have frame: "\<forall>m. snd (releaseRemoteLock e c t n) m \<noteq> t m \<longrightarrow>
      m = n \<and> snd (releaseRemoteLock e c t n) m = None \<and>
      (\<exists>r. t n = Some r \<and> sessionId c = Some (session_id r))"
    by (auto simp: releaseRemoteLock_def delete_lock_def unavailable_def self_def
        split: outcome.splits option.splits if_splits)
  have beat: "\<not> unavailable c \<and> delete_outcome e = Completes \<longrightarrow>
      n \<notin> set (activeLocks (fst (releaseRemoteLock e c t n)))"
    by (auto simp: releaseRemoteLock_def delete_lock_def set_delete_def
        split: option.splits)
  from other frame beat show ?thesis by blast
qed

text \<open>
  Client A releases a name held by B (the row stays, the name leaves A's set) and
  a name held by itself (the row is deleted).
\<close>

theorem release_only_own_witness:
  "held_by_B lock_a = Some row_B \<and> sessionId client_A \<noteq> Some (session_id row_B) \<and>
   \<not> unavailable client_A \<and> delete_outcome io_ok = Completes \<and>
   lock_a \<in> set (activeLocks client_A) \<and>
   snd (releaseRemoteLock io_ok client_A held_by_B lock_a) lock_a = Some row_B \<and>
   lock_a \<notin> set (activeLocks (fst (releaseRemoteLock io_ok client_A held_by_B lock_a))) \<and>
   snd (releaseRemoteLock io_ok client_A held_by_A lock_a) lock_a \<noteq> held_by_A lock_a \<and>
   snd (releaseRemoteLock io_ok client_A held_by_A lock_a) lock_a = None"
proof -
  have other: "held_by_B lock_a = Some row_B \<and> sessionId client_A \<noteq> Some (session_id row_B)"
    by (simp add: held_by_B_def client_A_def row_B_def)
  have completed: "\<not> unavailable client_A \<and> delete_outcome io_ok = Completes"
    by (simp add: unavailable_def client_A_def io_ok_def)
  have member: "lock_a \<in> set (activeLocks client_A)"
    by (simp add: client_A_def)
  have changed: "snd (releaseRemoteLock io_ok client_A held_by_A lock_a) lock_a \<noteq> held_by_A lock_a"
    by (simp add: releaseRemoteLock_def unavailable_def self_def delete_lock_def client_A_def
          io_ok_def held_by_A_def row_A_def)
  from release_only_own [where t = held_by_B and n = lock_a and row = row_B and c = client_A
      and e = io_ok]
    release_only_own [where t = held_by_A and n = lock_a and c = client_A and e = io_ok]
    other completed member changed
  show ?thesis by blast
qed

lemma refresh_never_raises: "\<exists>t'. refreshLockExpiration e c t n = Inr t'"
  by (cases "update_outcome e")
     (auto simp: refreshLockExpiration_def update_expiry_def split: option.splits)

lemma heartbeat_lock_keeps_set: "activeLocks (fst (heartbeat_lock env n s)) = activeLocks (fst s)"
proof (cases s)
  case (Pair c t)
  obtain t' where "refreshLockExpiration (fst (env n)) c t n = Inr t'"
    using refresh_never_raises by blast
  with Pair show ?thesis by (simp add: heartbeat_lock_def)
qed

lemma fold_heartbeat_keeps_set:
  "activeLocks (fst (fold (heartbeat_lock env) ns s)) = activeLocks (fst s)"
  by (induction ns arbitrary: s) (simp_all add: heartbeat_lock_keeps_set)

lemma heartbeat_keeps_set: "activeLocks (fst (heartbeat env c t)) = activeLocks c"
  by (simp add: heartbeat_def fold_heartbeat_keeps_set)

text \<open>
  C3.  The claim says that a heartbeat which finds the lock lost attempts a fresh
  acquire and, when that fails, removes the name from the heartbeat set.  The
  code does not: \<^verbatim>\<open>refreshLockExpiration\<close> never reports a failure (lemma
  \<open>refresh_never_raises\<close>), so no tick changes \<^verbatim>\<open>activeLocks\<close> (lemma
  \<open>heartbeat_keeps_set\<close>).  Here client A still lists the name while the row
  belongs to B: after the tick the name is still listed and the row is still
  B's.  A later \<^verbatim>\<open>validateEditingSession\<close> of the path does return \<^verbatim>\<open>false\<close>.
\<close>

theorem heartbeat_keeps_lost_lock:
  "activeLocks (fst (heartbeat beat_env client_A held_by_B)) = [lock_a] \<and>
   snd (heartbeat beat_env client_A held_by_B) lock_a = Some row_B \<and>
   \<not> fst (validateEditingSession io_ok sessions_a client_A
            (snd (heartbeat beat_env client_A held_by_B)) ''/a.py'')"
  by (simp add: heartbeat_def heartbeat_lock_def refreshLockExpiration_def update_expiry_def
        unavailable_def self_def beat_env_def client_A_def held_by_B_def row_B_def io_ok_def
        lock_a_def validateEditingSession_def isFileLockedByOther_def cleanupExpiredLocks_def
        delete_expired_def select_lock_def Let_def)

lemma acquire_try_client:
  "acquire_try e c t n = Inr r \<Longrightarrow>
     client r = (if message r = AcquiredLock
                 then c\<lparr>activeLocks := set_add n (activeLocks c)\<rparr> else c)"
  by (auto simp: acquire_try_def Let_def split: sum.splits prod.splits if_splits)

lemma acquire_try_acquired:
  "acquire_try e c t n = Inr r \<Longrightarrow> message r = AcquiredLock \<Longrightarrow>
     cleanupExpiredLocks e c t n = None \<and> insert_outcome e = Completes"
  by (cases "insert_outcome e")
     (auto simp: acquire_try_def Let_def insert_lock_def split: sum.splits prod.splits if_splits)

lemma acquire_try_own_granted:
  assumes "cleanupExpiredLocks e c t n = Some row" "session_id row = self c"
    and "select_outcome e = Completes" "acquire_try e c t n = Inr r"
  shows "granted r \<and> message r = RefreshedExisting"
  using assms
  by (cases "insert_outcome e")
     (auto simp: acquire_try_def Let_def insert_lock_def select_lock_def
        split: sum.splits prod.splits if_splits)

text \<open>
  What the code does for a client that owns the row of the name, the row not
  being expired at the sweep: it grants unless the read-back is answered with an
  error response, and it moves the expiry when the requests complete.
\<close>

lemma reacquire_live_own_granted:
  assumes ready: "supabase c" "sessionId c = Some s" "s \<noteq> []"
    and own: "t n = Some row" "session_id row = s"
    and live: "\<not> expires_at row < sweep_now e"
    and read: "select_outcome e \<noteq> Fails"
  shows "granted (acquireRemoteLock e c t n)"
proof -
  have kept: "cleanupExpiredLocks e c t n = Some row"
    using own(1) live by (rule cleanup_keeps_live)
  show ?thesis
  proof (cases "acquire_try e c t n")
    case (Inl x)
    with ready show ?thesis
      by (simp add: acquire_ready split: prod.splits)
  next
    case (Inr r)
    from read have "select_outcome e = Completes \<or> select_outcome e = Throws"
      by (cases "select_outcome e") simp_all
    then show ?thesis
    proof
      assume "select_outcome e = Completes"
      with kept own ready Inr have "granted r"
        using acquire_try_own_granted [of e c t n row r] by (simp add: self_ready)
      with ready Inr show ?thesis by (simp add: acquire_ready)
    next
      assume "select_outcome e = Throws"
      with kept have "\<exists>x. acquire_try e c t n = Inl x"
        unfolding acquire_try_raises by simp
      with Inr have False by simp
      then show ?thesis ..
    qed
  qed
qed

lemma reacquire_live_own_extends:
  assumes ready: "supabase c" "sessionId c = Some s" "s \<noteq> []"
    and own: "t n = Some row" "session_id row = s"
    and live: "\<not> expires_at row < sweep_now e"
    and complete: "insert_outcome e \<noteq> Throws" "select_outcome e = Completes"
      "update_outcome e = Completes"
  shows "locks (acquireRemoteLock e c t n) n =
           Some \<lparr>session_id = s, expires_at = refresh_now e + 30000\<rparr>"
proof -
  have kept: "cleanupExpiredLocks e c t n = Some row"
    using own(1) live by (rule cleanup_keeps_live)
  with ready own complete show ?thesis
    by (simp add: acquire_ready acquire_try_own self_ready)
qed

text \<open>
  C5.  The claim says that re-acquiring a name whose row this client owns always
  returns \<^verbatim>\<open>true\<close>.  The code returns \<^verbatim>\<open>false\<close> when the read-back is answered with
  an error response: it does not look at the \<^verbatim>\<open>error\<close> field of that response,
  finds no row in \<^verbatim>\<open>data\<close> and takes the branch for a lock of another session.
  Here client A owns the live row of the name, the insert is rejected and the
  read-back fails: A is refused, and its row is still in the table.
\<close>

theorem reacquire_own_refused:
  "supabase client_A \<and> sessionId client_A = Some (session_id row_A) \<and>
   held_by_A lock_a = Some row_A \<and> sweep_now io_select_fails < expires_at row_A \<and>
   select_outcome io_select_fails = Fails \<and>
   \<not> granted (acquireRemoteLock io_select_fails client_A held_by_A lock_a) \<and>
   message (acquireRemoteLock io_select_fails client_A held_by_A lock_a) = LockedByAnother \<and>
   locks (acquireRemoteLock io_select_fails client_A held_by_A lock_a) lock_a = Some row_A"
  by (simp add: acquireRemoteLock_def initializeRemoteLocks_def unavailable_def self_def
        acquire_try_def cleanupExpiredLocks_def delete_expired_def insert_lock_def
        select_lock_def Let_def client_A_def held_by_A_def row_A_def
        io_select_fails_def io_ok_def)

text \<open>
  C9.  For every lock name \<open>n\<close>: when \<^verbatim>\<open>acquireRemoteLock\<close> finds the client
  unavailable, or its attempt raises, or the row present after the sweep is the
  caller's own and the read-back completes, it returns \<^verbatim>\<open>true\<close> and \<^verbatim>\<open>activeLocks\<close>
  is what it was.  The set changes only when the insert is accepted, and then
  \<open>n\<close> is appended.
\<close>

theorem acquire_adds_only_on_insert:
  fixes e c t n
  defines "c1 \<equiv> initializeRemoteLocks e c"
    and "R \<equiv> acquireRemoteLock e c t n"
  shows "(unavailable c1 \<or> (\<exists>x. acquire_try e c1 t n = Inl x) \<or>
          (\<exists>row. cleanupExpiredLocks e c1 t n = Some row \<and> session_id row = self c1 \<and>
                 select_outcome e = Completes)
            \<longrightarrow> granted R \<and> activeLocks (client R) = activeLocks c) \<and>
         (activeLocks (client R) \<noteq> activeLocks c
            \<longrightarrow> \<not> unavailable c1 \<and> cleanupExpiredLocks e c1 t n = None \<and>
                insert_outcome e = Completes \<and> n \<notin> set (activeLocks c) \<and>
                activeLocks (client R) = activeLocks c @ [n])"
proof -
  have same: "activeLocks c1 = activeLocks c"
    unfolding c1_def by (rule initialize_activeLocks)
  show ?thesis
  proof (cases "unavailable c1")
    case True
    then show ?thesis
      unfolding R_def using same by (simp add: acquireRemoteLock_def c1_def [symmetric])
  next
    case False
    show ?thesis
    proof (cases "acquire_try e c1 t n")
      case (Inl x)
      with False show ?thesis
        unfolding R_def using same
        by (simp add: acquireRemoteLock_def c1_def [symmetric] split: prod.splits)
    next
      case (Inr r)
      with False have R: "R = r"
        unfolding R_def by (simp add: acquireRemoteLock_def c1_def [symmetric])
      from Inr have cl: "client r = (if message r = AcquiredLock
          then c1\<lparr>activeLocks := set_add n (activeLocks c1)\<rparr> else c1)"
        by (rule acquire_try_client)
      show ?thesis
      proof (cases "message r = AcquiredLock")
        case True
        from Inr True have acq: "cleanupExpiredLocks e c1 t n = None \<and> insert_outcome e = Completes"
          by (rule acquire_try_acquired)
        with True cl same R False Inr show ?thesis
          by (auto simp: set_add_def)
      next
        case notacq: False
        have "granted r" if "cleanupExpiredLocks e c1 t n = Some row" "session_id row = self c1"
          "select_outcome e = Completes" for row
          using acquire_try_own_granted [OF that Inr] by simp
        with notacq cl same R False Inr show ?thesis
          by auto
      qed
    qed
  qed
qed

text \<open>
  An unconfigured client, a raising insert and a re-acquire of B's own row all
  grant the lock and leave the set empty; an accepted insert adds the name.
\<close>

theorem acquire_adds_only_on_insert_witness:
  "unavailable (initializeRemoteLocks io_unconfigured client_new) \<and>
   granted (acquireRemoteLock io_unconfigured client_new held_by_A lock_a) \<and>
   activeLocks (client (acquireRemoteLock io_unconfigured client_new held_by_A lock_a)) = [] \<and>
   acquire_try io_insert_throws (initializeRemoteLocks io_insert_throws client_B) held_by_A lock_a =
     Inl (TransportError, held_by_A) \<and>
   granted (acquireRemoteLock io_insert_throws client_B held_by_A lock_a) \<and>
   activeLocks (client (acquireRemoteLock io_insert_throws client_B held_by_A lock_a)) = [] \<and>
   cleanupExpiredLocks io_ok (initializeRemoteLocks io_ok client_B) held_by_B lock_a = Some row_B \<and>
   session_id row_B = self (initializeRemoteLocks io_ok client_B) \<and>
   granted (acquireRemoteLock io_ok client_B held_by_B lock_a) \<and>
   activeLocks (client (acquireRemoteLock io_ok client_B held_by_B lock_a)) = [] \<and>
   activeLocks (client (acquireRemoteLock io_ok client_B no_locks lock_a)) \<noteq> activeLocks client_B \<and>
   activeLocks (client (acquireRemoteLock io_ok client_B no_locks lock_a)) = [lock_a]"
proof -
  have empty: "activeLocks client_new = []" "activeLocks client_B = []"
    by (simp_all add: client_new_def client_B_def)
  have off: "unavailable (initializeRemoteLocks io_unconfigured client_new)"
    by (simp add: initializeRemoteLocks_def unavailable_def io_unconfigured_def client_new_def)
  have init: "initializeRemoteLocks io_insert_throws client_B = client_B"
    "initializeRemoteLocks io_ok client_B = client_B"
    by (simp_all add: initializeRemoteLocks_def client_B_def)
  have swept: "cleanupExpiredLocks io_insert_throws client_B held_by_A = held_by_A"
    by (rule ext)
       (simp add: cleanupExpiredLocks_def delete_expired_def io_insert_throws_def io_ok_def
          client_B_def held_by_A_def row_A_def)
  have throws: "insert_outcome io_insert_throws = Throws"
    by (simp add: io_insert_throws_def)
  have raised: "acquire_try io_insert_throws (initializeRemoteLocks io_insert_throws client_B)
      held_by_A lock_a = Inl (TransportError, held_by_A)"
    using throws by (simp add: init swept acquire_try_def Let_def insert_lock_def)
  have held: "held_by_B lock_a = Some row_B"
    by (simp add: held_by_B_def)
  have kept: "cleanupExpiredLocks io_ok (initializeRemoteLocks io_ok client_B) held_by_B lock_a =
      Some row_B"
    using held by (rule cleanup_keeps_live) (simp add: row_B_def io_ok_def)
  have own: "session_id row_B = self (initializeRemoteLocks io_ok client_B)"
    by (simp add: init) (simp add: self_def client_B_def row_B_def)
  have reads: "select_outcome io_ok = Completes"
    by (simp add: io_ok_def)
  have added: "activeLocks (client (acquireRemoteLock io_ok client_B no_locks lock_a)) = [lock_a]"
    by (simp add: acquireRemoteLock_def initializeRemoteLocks_def unavailable_def self_def
          acquire_try_def cleanupExpiredLocks_def delete_expired_def insert_lock_def Let_def
          set_add_def client_B_def no_locks_def io_ok_def)
  from acquire_adds_only_on_insert [where e = io_unconfigured and c = client_new
      and t = held_by_A and n = lock_a]
    acquire_adds_only_on_insert [where e = io_insert_throws and c = client_B
      and t = held_by_A and n = lock_a]
    acquire_adds_only_on_insert [where e = io_ok and c = client_B
      and t = held_by_B and n = lock_a]
    acquire_adds_only_on_insert [where e = io_ok and c = client_B
      and t = no_locks and n = lock_a]
    empty off raised kept own reads added
  show ?thesis by simp
qed

section \<open>Properties of session validation\<close>

lemma isFileLockedByOther_cases:
  "isFileLockedByOther e c t n = Inr (None, if unavailable c then t else cleanupExpiredLocks e c t) \<or>
   (\<exists>row. cleanupExpiredLocks e c t n = Some row \<and> session_id row \<noteq> self c \<and>
      select_outcome e = Completes \<and>
      isFileLockedByOther e c t n = Inr (Some (session_id row), cleanupExpiredLocks e c t))"
  by (cases "select_outcome e")
     (auto simp: isFileLockedByOther_def Let_def select_lock_def split: option.splits)

text \<open>
  C10, as stated, fails.  The read of the lock lookup raises a transport error,
  the path is registered and the lock is held by B: \<^verbatim>\<open>validateEditingSession\<close>
  returns \<^verbatim>\<open>true\<close>, not \<^verbatim>\<open>false\<close>.
\<close>

theorem validate_true_on_transport_error:
  "select_outcome io_select_throws = Throws \<and>
   fst (validateEditingSession io_select_throws sessions_a client_A held_by_B ''/a.py'') \<and>
   fst (snd (validateEditingSession io_select_throws sessions_a client_A held_by_B ''/a.py''))
     ''/a.py'' = Some ''edit-1''"
  by (simp add: validateEditingSession_def isFileLockedByOther_def unavailable_def
        cleanupExpiredLocks_def delete_expired_def select_lock_def Let_def
        io_select_throws_def io_ok_def client_A_def sessions_a_def)

text \<open>
  C10, amended.  For every file path: the registry changes only when the lookup,
  made by an available client, completes its read and finds after its sweep a
  row of the name that belongs to a different session; then the path's entry is
  removed and the result is \<^verbatim>\<open>false\<close>.  When the read of the lookup does not
  complete (it raises or is answered with an error response), the lookup reports
  not locked, so the result is \<^verbatim>\<open>true\<close> and the registry is unchanged, whatever
  the sweep did.  Once the import has resolved, a path reported invalid is no
  longer registered; the result is \<^verbatim>\<open>false\<close> with the registry unchanged only when
  the import rejects.
\<close>

theorem validate_evicts_only_when_locked:
  fixes e activeSessions c t filePath
  defines "V \<equiv> validateEditingSession e activeSessions c t filePath"
  shows "(fst (snd V) \<noteq> activeSessions \<longrightarrow>
            \<not> fst V \<and> fst (snd V) = activeSessions(filePath := None) \<and>
            \<not> unavailable c \<and> select_outcome e = Completes \<and>
            (\<exists>row. cleanupExpiredLocks e c t (''file-editing:'' @ filePath) = Some row \<and>
                   session_id row \<noteq> self c)) \<and>
         (import_resolves e \<and> select_outcome e \<noteq> Completes \<longrightarrow>
            fst V \<and> fst (snd V) = activeSessions) \<and>
         (import_resolves e \<and> \<not> fst V \<longrightarrow> fst (snd V) = activeSessions(filePath := None)) \<and>
         (\<not> import_resolves e \<longrightarrow> \<not> fst V \<and> fst (snd V) = activeSessions)"
proof -
  let ?n = "''file-editing:'' @ filePath"
  from isFileLockedByOther_cases [of e c t ?n]
  consider (free) "isFileLockedByOther e c t ?n =
        Inr (None, if unavailable c then t else cleanupExpiredLocks e c t)"
    | (locked) row where "cleanupExpiredLocks e c t ?n = Some row" "session_id row \<noteq> self c"
        "select_outcome e = Completes"
        "isFileLockedByOther e c t ?n = Inr (Some (session_id row), cleanupExpiredLocks e c t)"
    by blast
  then show ?thesis
  proof cases
    case free
    then show ?thesis
      unfolding V_def by (simp add: validateEditingSession_def)
  next
    case locked
    have "\<not> unavailable c"
    proof
      assume "unavailable c"
      then have "isFileLockedByOther e c t ?n = Inr (None, t)"
        by (simp add: isFileLockedByOther_def)
      with locked(4) show False by simp
    qed
    with locked show ?thesis
      unfolding V_def by (auto simp: validateEditingSession_def)
  qed
qed

text \<open>
  The three cases at a registered path whose lock B holds: every request
  completes, the read raises, the import rejects.
\<close>

theorem validate_evicts_only_when_locked_witness:
  "fst (snd (validateEditingSession io_ok sessions_a client_A held_by_B ''/a.py'')) \<noteq> sessions_a \<and>
   \<not> fst (validateEditingSession io_ok sessions_a client_A held_by_B ''/a.py'') \<and>
   fst (snd (validateEditingSession io_ok sessions_a client_A held_by_B ''/a.py'')) ''/a.py'' = None \<and>
   import_resolves io_select_throws \<and> select_outcome io_select_throws \<noteq> Completes \<and>
   fst (validateEditingSession io_select_throws sessions_a client_A held_by_B ''/a.py'') \<and>
   fst (snd (validateEditingSession io_select_throws sessions_a client_A held_by_B ''/a.py'')) =
     sessions_a \<and>
   \<not> import_resolves io_import_rejects \<and>
   \<not> fst (validateEditingSession io_import_rejects sessions_a client_A held_by_B ''/a.py'') \<and>
   fst (snd (validateEditingSession io_import_rejects sessions_a client_A held_by_B ''/a.py'')) =
     sessions_a"
proof -
  have evicted: "fst (snd (validateEditingSession io_ok sessions_a client_A held_by_B ''/a.py''))
      ''/a.py'' = None"
    by (simp add: validateEditingSession_def isFileLockedByOther_def unavailable_def self_def
          cleanupExpiredLocks_def delete_expired_def select_lock_def Let_def
          io_ok_def client_A_def sessions_a_def held_by_B_def row_B_def lock_a_def)
  have registered: "sessions_a ''/a.py'' = Some ''edit-1''"
    by (simp add: sessions_a_def)
  from evicted registered
  have changed: "fst (snd (validateEditingSession io_ok sessions_a client_A held_by_B ''/a.py''))
      \<noteq> sessions_a"
    by auto
  have faulty: "import_resolves io_select_throws \<and> select_outcome io_select_throws \<noteq> Completes"
    by (simp add: io_select_throws_def io_ok_def)
  have rejected: "\<not> import_resolves io_import_rejects"
    by (simp add: io_import_rejects_def)
  from changed validate_evicts_only_when_locked [where e = io_ok and activeSessions = sessions_a
      and c = client_A and t = held_by_B and filePath = "''/a.py''"]
  have invalid: "\<not> fst (validateEditingSession io_ok sessions_a client_A held_by_B ''/a.py'')"
    by blast
  from faulty validate_evicts_only_when_locked [where e = io_select_throws
      and activeSessions = sessions_a and c = client_A and t = held_by_B
      and filePath = "''/a.py''"]
  have absorbed: "fst (validateEditingSession io_select_throws sessions_a client_A held_by_B ''/a.py'') \<and>
      fst (snd (validateEditingSession io_select_throws sessions_a client_A held_by_B ''/a.py'')) =
        sessions_a"
    by blast
  from rejected validate_evicts_only_when_locked [where e = io_import_rejects
      and activeSessions = sessions_a and c = client_A and t = held_by_B
      and filePath = "''/a.py''"]
  have unloaded: "\<not> fst (validateEditingSession io_import_rejects sessions_a client_A held_by_B ''/a.py'') \<and>
      fst (snd (validateEditingSession io_import_rejects sessions_a client_A held_by_B ''/a.py'')) =
        sessions_a"
    by blast
  from changed invalid evicted faulty absorbed rejected unloaded
  show ?thesis by blast
qed

section \<open>Properties of the file sync engine\<close>

lemma find_map_keeps:
  assumes "find P xs = Some l" "\<And>x. P (f x) = P x"
  shows "find P (map f xs) = Some (f l)"
  using assms by (induction xs) (auto split: if_splits)

lemma find_snoc:
  "find P (xs @ [y]) = (case find P xs of None \<Rightarrow> (if P y then Some y else None) | Some x \<Rightarrow> Some x)"
  by (induction xs) auto

lemma mergeFile_commits: "commits m \<Longrightarrow> mergeFile m r db = Inr (merge_transaction (new_uuid m) r db)"
  by (simp add: mergeFile_def transaction_def)

lemma mergeFile_aborts: "\<not> commits m \<Longrightarrow> mergeFile m r db = Inr db"
  by (simp add: mergeFile_def transaction_def)

lemma merge_transaction_ignores_time:
  "merge_transaction u (r\<lparr>updated_at := v\<rparr>) = merge_transaction u r"
  by (rule ext) (simp add: merge_transaction_def split: option.splits)

lemma merge_transaction_same_digest:
  "find (\<lambda>x. local_path x = path r) (metadata db) = Some l \<Longrightarrow> local_sha256 l = sha256 r \<Longrightarrow>
     merge_transaction u r db = db"
  by (simp add: merge_transaction_def)

lemma merge_transaction_settles:
  "\<exists>l. find (\<lambda>x. local_path x = path r) (metadata (merge_transaction u r db)) = Some l \<and>
       local_sha256 l = sha256 r"
proof (cases "find (\<lambda>x. local_path x = path r) (metadata db)")
  case None
  then show ?thesis
    by (simp add: merge_transaction_def find_snoc)
next
  case (Some l)
  show ?thesis
  proof (cases "local_sha256 l = sha256 r")
    case True
    with Some show ?thesis by (simp add: merge_transaction_def)
  next
    case False
    let ?f = "\<lambda>x. if uuid x = uuid l
                   then x\<lparr>local_sha256 := sha256 r, viewState := view_state r\<rparr> else x"
    have "find (\<lambda>x. local_path x = path r) (map ?f (metadata db)) = Some (?f l)"
      using Some by (rule find_map_keeps) simp
    with Some False show ?thesis by (simp add: merge_transaction_def)
  qed
qed

text \<open>
  C6.  For every remote row and local store in which the metadata row of the
  path exists with a digest different from the remote one: a merge whose
  transaction commits leaves that metadata row with the remote digest and view
  state and the contents record with the remote contents.  The merge does not
  read \<^verbatim>\<open>updated_at\<close>: changing it in the remote row changes nothing.
\<close>

theorem merge_overwrites_on_digest_mismatch:
  assumes "find (\<lambda>x. local_path x = path r) (metadata db) = Some l"
    and "local_sha256 l \<noteq> sha256 r"
    and "commits m"
  shows "(\<exists>db'. mergeFile m r db = Inr db' \<and>
            find (\<lambda>x. local_path x = path r) (metadata db') =
              Some (l\<lparr>local_sha256 := sha256 r, viewState := view_state r\<rparr>) \<and>
            db_contents db' (path r) = Some (contents r)) \<and>
         (\<forall>u. mergeFile m (r\<lparr>updated_at := u\<rparr>) db = mergeFile m r db)"
proof -
  let ?f = "\<lambda>x. if uuid x = uuid l
                 then x\<lparr>local_sha256 := sha256 r, viewState := view_state r\<rparr> else x"
  have "find (\<lambda>x. local_path x = path r) (map ?f (metadata db)) = Some (?f l)"
    using assms(1) by (rule find_map_keeps) simp
  with assms have overwritten: "\<exists>db'. mergeFile m r db = Inr db' \<and>
      find (\<lambda>x. local_path x = path r) (metadata db') =
        Some (l\<lparr>local_sha256 := sha256 r, viewState := view_state r\<rparr>) \<and>
      db_contents db' (path r) = Some (contents r)"
    by (simp add: mergeFile_commits merge_transaction_def)
  have "\<forall>u. mergeFile m (r\<lparr>updated_at := u\<rparr>) db = mergeFile m r db"
    by (simp add: mergeFile_def merge_transaction_ignores_time)
  with overwritten show ?thesis by blast
qed

text \<open>
  The local \<^verbatim>\<open>x.py\<close> with digest D1 is overwritten by the remote row with digest D2.
\<close>

theorem merge_overwrites_on_digest_mismatch_witness:
  "find (\<lambda>x. local_path x = path remote_x) (metadata db_x) = Some local_x \<and>
   local_sha256 local_x \<noteq> sha256 remote_x \<and> commits merge_ok \<and>
   (\<exists>db'. mergeFile merge_ok remote_x db_x = Inr db' \<and>
      find (\<lambda>x. local_path x = path remote_x) (metadata db') =
        Some \<lparr>uuid = ''u1'', local_path = ''x.py'', local_sha256 = ''D2'', viewState = ''null''\<rparr> \<and>
      db_contents db' (path remote_x) = Some ''print(2)'')"
proof -
  have found: "find (\<lambda>x. local_path x = path remote_x) (metadata db_x) = Some local_x"
    by (simp add: db_x_def local_x_def remote_x_def)
  have differs: "local_sha256 local_x \<noteq> sha256 remote_x"
    by (simp add: local_x_def remote_x_def)
  have ok: "commits merge_ok"
    by (simp add: merge_ok_def)
  have fields: "local_x\<lparr>local_sha256 := sha256 remote_x, viewState := view_state remote_x\<rparr> =
      \<lparr>uuid = ''u1'', local_path = ''x.py'', local_sha256 = ''D2'', viewState = ''null''\<rparr>"
    "contents remote_x = ''print(2)''"
    by (simp_all add: local_x_def remote_x_def)
  from merge_overwrites_on_digest_mismatch [OF found differs ok] found differs ok fields
  show ?thesis by simp
qed

text \<open>
  C7.  For every remote row: when the metadata row of the path exists with the
  remote digest, \<^verbatim>\<open>mergeFile\<close> returns the local store as it was; hence after a
  merge that committed, merging the same row again changes nothing.
\<close>

theorem merge_idempotent:
  "(find (\<lambda>x. local_path x = path r) (metadata db) = Some l \<and> local_sha256 l = sha256 r \<longrightarrow>
      mergeFile m r db = Inr db) \<and>
   (commits m \<and> mergeFile m r db = Inr db1 \<longrightarrow> mergeFile m2 r db1 = Inr db1)"
proof -
  have same: "mergeFile m' r d = Inr d"
    if "find (\<lambda>x. local_path x = path r) (metadata d) = Some k" "local_sha256 k = sha256 r"
    for m' d k
    using that by (cases "commits m'")
      (simp_all add: mergeFile_commits mergeFile_aborts merge_transaction_same_digest)
  have again: "mergeFile m2 r db1 = Inr db1" if "commits m" "mergeFile m r db = Inr db1"
  proof -
    from that have "db1 = merge_transaction (new_uuid m) r db"
      by (simp add: mergeFile_commits)
    with merge_transaction_settles [of r "new_uuid m" db] same show ?thesis
      by blast
  qed
  from same again show ?thesis by blast
qed

text \<open>
  The first merge of the remote row changes the metadata of \<^verbatim>\<open>x.py\<close>; the second
  returns the store of the first.
\<close>

theorem merge_idempotent_witness:
  "commits merge_ok \<and>
   mergeFile merge_ok remote_x db_x = Inr (merge_transaction ''u2'' remote_x db_x) \<and>
   metadata (merge_transaction ''u2'' remote_x db_x) \<noteq> metadata db_x \<and>
   find (\<lambda>x. local_path x = path remote_x) (metadata (merge_transaction ''u2'' remote_x db_x)) =
     Some \<lparr>uuid = ''u1'', local_path = ''x.py'', local_sha256 = ''D2'', viewState = ''null''\<rparr> \<and>
   sha256 remote_x = ''D2'' \<and>
   mergeFile merge_ok remote_x (merge_transaction ''u2'' remote_x db_x) =
     Inr (merge_transaction ''u2'' remote_x db_x)"
proof -
  have ok: "commits merge_ok"
    by (simp add: merge_ok_def)
  have first: "mergeFile merge_ok remote_x db_x = Inr (merge_transaction ''u2'' remote_x db_x)"
    by (simp add: mergeFile_commits ok) (simp add: merge_ok_def)
  have found: "find (\<lambda>x. local_path x = path remote_x)
      (metadata (merge_transaction ''u2'' remote_x db_x)) =
      Some \<lparr>uuid = ''u1'', local_path = ''x.py'', local_sha256 = ''D2'', viewState = ''null''\<rparr>"
    by (simp add: merge_transaction_def db_x_def local_x_def remote_x_def)
  have changed: "metadata (merge_transaction ''u2'' remote_x db_x) \<noteq> metadata db_x"
    by (simp add: merge_transaction_def db_x_def local_x_def remote_x_def)
  have digest: "sha256 remote_x = ''D2''"
    by (simp add: remote_x_def)
  from merge_idempotent [where m = merge_ok and r = remote_x and db = db_x
      and ?db1.0 = "merge_transaction ''u2'' remote_x db_x" and ?m2.0 = merge_ok]
    ok first found changed digest
  show ?thesis by simp
qed

lemma merge_each_never_raises: "\<exists>db'. merge_each env fs db = Inr db'"
proof (induction fs arbitrary: db)
  case Nil
  show ?case by simp
next
  case (Cons f fs)
  obtain d where "mergeFile (env (path f)) f db = Inr d"
    by (cases "commits (env (path f))") (simp_all add: mergeFile_commits mergeFile_aborts)
  with Cons show ?case by simp
qed

lemma pull_query_failure:
  "query_outcome e \<noteq> Completes \<Longrightarrow> downloadAndMergeFiles e remote s = s"
  by (cases "query_outcome e"; cases s) (simp_all add: downloadAndMergeFiles_def select_synced_def)

lemma pull_advances_whenever_rows:
  assumes "query_outcome e = Completes"
    and "filter (\<lambda>f. lastSyncTime this \<le> updated_at f) remote \<noteq> []"
  shows "lastSyncTime (fst (downloadAndMergeFiles e remote (this, db))) = pull_done e"
proof -
  let ?rows = "sort_key updated_at (filter (\<lambda>f. lastSyncTime this \<le> updated_at f) remote)"
  from assms(2) have "length ?rows \<noteq> 0" by simp
  moreover obtain db' where "merge_each (merge_env e) ?rows db = Inr db'"
    using merge_each_never_raises by blast
  ultimately show ?thesis
    using assms(1) by (simp add: downloadAndMergeFiles_def select_synced_def)
qed

text \<open>
  C8.  The claim says that a pull in which the merge transaction of a returned
  row fails does not advance \<^verbatim>\<open>lastSyncTime\<close>.  The code advances it:
  \<^verbatim>\<open>mergeFile\<close> catches the error of its transaction, so the loop ends normally
  and the assignment after it runs (lemma \<open>pull_advances_whenever_rows\<close>).  Here
  the only returned row fails to merge: the store is unchanged and the
  watermark moves from 0 to 5000.  Only a failing query keeps the watermark
  (lemma \<open>pull_query_failure\<close>).
\<close>

theorem pull_advances_after_failed_merge:
  "transaction (commits (merge_env pull_abort (path remote_x)))
     (merge_transaction (new_uuid (merge_env pull_abort (path remote_x))) remote_x) db_x =
     Inl TransactionError \<and>
   lastSyncTime sync0 = 0 \<and>
   lastSyncTime (fst (downloadAndMergeFiles pull_abort [remote_x] (sync0, db_x))) = 5000 \<and>
   snd (downloadAndMergeFiles pull_abort [remote_x] (sync0, db_x)) = db_x"
  by (simp add: downloadAndMergeFiles_def select_synced_def mergeFile_def transaction_def
        pull_abort_def all_abort_def merge_aborts_def sync0_def remote_x_def)

end
